theory Spec2Isabelle
  imports Complex_Main
begin

section \<open>Demographic simulation engine of the Reproductive Age Explorer\<close>

text \<open>
  A shallow embedding of the numerical core of \<^verbatim>\<open>src/ReproductiveAgeExplorer.jsx\<close>:
  the Siler mortality model, the survival curve, the Gaussian fertility schedule with
  its biological cap, the initialisation of the age structure and the yearly step.

  JavaScript numbers are modelled as the real numbers: every equation proved here is
  the exact-arithmetic content of a statement that the program meets up to rounding.
  Arrays are lists, read with \<open>!\<close> and written with list update; the loops of the
  source are folds over the index ranges the source iterates over.
\<close>

subsection \<open>Constants\<close>

definition numAges :: nat where
  "numAges = 100"

definition MALE_INFANT_MULTIPLIER :: real where
  "MALE_INFANT_MULTIPLIER = 1.20"

definition MALE_BACKGROUND_MULTIPLIER :: real where
  "MALE_BACKGROUND_MULTIPLIER = 1.50"

definition MALE_SENESCENT_MULTIPLIER :: real where
  "MALE_SENESCENT_MULTIPLIER = 1.15"

definition MAX_ASFR :: real where
  "MAX_ASFR = 1.1"

subsection \<open>Array helpers\<close>

text \<open>\<^verbatim>\<open>xs.reduce((a, b) => a + b, 0)\<close>: a left fold from 0.\<close>

definition reduce_sum :: "real list \<Rightarrow> real" where
  "reduce_sum xs = foldl (\<lambda>a b. a + b) 0 xs"

text \<open>\<^verbatim>\<open>xs.slice(i, j)\<close> for \<open>i \<le> j\<close>, and \<^verbatim>\<open>xs.slice(i)\<close>.\<close>

definition slice :: "'a list \<Rightarrow> nat \<Rightarrow> nat \<Rightarrow> 'a list" where
  "slice xs i j = take (j - i) (drop i xs)"

definition slice_from :: "'a list \<Rightarrow> nat \<Rightarrow> 'a list" where
  "slice_from xs i = drop i xs"

subsection \<open>Mortality model\<close>

text \<open>
  \<^verbatim>\<open>getMortalityRate(age, e0, isMale)\<close>: the Siler hazard with the male multipliers
  on its three components, capped at 0.6.
\<close>

definition getMortalityRate :: "real \<Rightarrow> real \<Rightarrow> bool \<Rightarrow> real" where
  "getMortalityRate age e0 isMale =
     (let alpha1 = 0.015 * exp ((75 - e0) * 0.055);
          beta1 = 0.7;
          infantMortality = alpha1 * exp (- beta1 * age);
          alpha2 = 0.0004 * exp ((75 - e0) * 0.015);
          beta3 = 0.088;
          alpha3 = 0.00002 * exp ((80 - e0) * 0.055);
          senescentMortality = alpha3 * exp (beta3 * age);
          mortality =
            (if isMale
             then infantMortality * MALE_INFANT_MULTIPLIER
                  + alpha2 * MALE_BACKGROUND_MULTIPLIER
                  + senescentMortality * MALE_SENESCENT_MULTIPLIER
             else infantMortality + alpha2 + senescentMortality)
      in min mortality 0.6)"

text \<open>
  \<^verbatim>\<open>getSurvivalCurve(e0, isMale)\<close>: an array of \<open>numAges\<close> ones, overwritten from
  age 1 upwards, each entry from the one written just before it.
\<close>

definition getSurvivalCurve :: "real \<Rightarrow> bool \<Rightarrow> real list" where
  "getSurvivalCurve e0 isMale =
     fold (\<lambda>age survival.
             let mortality = getMortalityRate (real (age - 1)) e0 isMale
             in survival[age := survival ! (age - 1) * exp (- mortality)])
          [1..<numAges] (replicate numAges 1)"

text \<open>\<^verbatim>\<open>calculateLifeExpectancy(survivalCurve)\<close>: the sum of the curve.\<close>

definition calculateLifeExpectancy :: "real list \<Rightarrow> real" where
  "calculateLifeExpectancy survivalCurve = foldl (\<lambda>sum l. sum + l) 0 survivalCurve"

subsection \<open>Fertility model\<close>

text \<open>
  The array returned by \<^verbatim>\<open>getFertilitySchedule\<close> carries two extra properties,
  \<^verbatim>\<open>biologicallyCapped\<close> and \<^verbatim>\<open>effectiveTFR\<close>. They are set at the end of the
  function only: on the early return they are absent (\<open>None\<close>).
\<close>

record fertility_schedule =
  schedule :: "real list"
  biologicallyCapped :: "bool option"
  effectiveTFR :: "real option"

text \<open>
  The body of the first loop of \<^verbatim>\<open>getFertilitySchedule\<close>: the raw value at one
  age. The second peak is used when \<^verbatim>\<open>secondPeak && Math.abs(secondPeak - peak) > 5\<close>:
  \<^verbatim>\<open>null\<close> and 0 are both falsy.
\<close>

definition rawValue :: "real \<Rightarrow> real \<Rightarrow> real option \<Rightarrow> nat \<Rightarrow> real" where
  "rawValue peak sigma secondPeak age =
     (let primary = exp (- ((real age - peak) ^ 2) / (2 * sigma ^ 2));
          secondary =
            (case secondPeak of
               None \<Rightarrow> 0
             | Some sp \<Rightarrow>
                 if sp \<noteq> 0 \<and> \<bar>sp - peak\<bar> > 5
                 then exp (- ((real age - sp) ^ 2) / (2 * sigma ^ 2)) * 0.6
                 else 0);
          biologicalDecline = (if age > 40 then exp (- 0.1 * (real age - 40)) else 1.0)
      in (primary + secondary) * biologicalDecline)"

text \<open>The first loop: the raw shape on the ages 12 to 54, zero elsewhere.\<close>

definition rawSchedule :: "real \<Rightarrow> real \<Rightarrow> real option \<Rightarrow> real list" where
  "rawSchedule peak spreadVal secondPeak =
     (let sigma = max spreadVal 2.5
      in fold (\<lambda>age schedule. schedule[age := rawValue peak sigma secondPeak age])
              [12..<55] (replicate numAges 0))"

text \<open>\<^verbatim>\<open>xs.map((f, a) => ...)\<close>: the callback gets the element and its index.\<close>

definition map_indexed :: "('a \<Rightarrow> nat \<Rightarrow> 'b) \<Rightarrow> 'a list \<Rightarrow> 'b list" where
  "map_indexed g xs = map (\<lambda>a. g (xs ! a) a) [0..<length xs]"

definition getFertilitySchedule ::
    "real \<Rightarrow> real \<Rightarrow> real option \<Rightarrow> real \<Rightarrow> fertility_schedule" where
  "getFertilitySchedule peak spreadVal secondPeak tfr =
     (let schedule0 = rawSchedule peak spreadVal secondPeak;
          sum = reduce_sum schedule0
      in if sum < 1 / 10 ^ 10
         then \<lparr>schedule = schedule0, biologicallyCapped = None, effectiveTFR = None\<rparr>
         else
           let schedule1 = map (\<lambda>f. (f / sum) * tfr) schedule0;
               capped = map (\<lambda>f. min f MAX_ASFR) schedule1;
               totalCapped = reduce_sum capped;
               isCapped = (totalCapped < tfr * 0.99);
               redistributed =
                 (if isCapped
                  then
                    let lostFertility = tfr - totalCapped;
                        canReceive = map_indexed (\<lambda>f a. f < MAX_ASFR \<and> a \<ge> 12 \<and> a < 55) capped;
                        numCanReceive = length (filter (\<lambda>x. x) canReceive)
                    in if numCanReceive > 0
                       then map_indexed
                              (\<lambda>f a. if canReceive ! a
                                     then min (f + lostFertility / real numCanReceive) MAX_ASFR
                                     else f)
                              capped
                       else capped
                  else capped)
           in \<lparr>schedule = redistributed,
               biologicallyCapped = Some isCapped,
               effectiveTFR = Some (reduce_sum redistributed)\<rparr>)"

text \<open>
  Two intermediate values of \<^verbatim>\<open>getFertilitySchedule\<close> past the early return, named
  to state properties of them: the array \<^verbatim>\<open>schedule\<close> after the normalising map, and
  the array \<^verbatim>\<open>capped\<close>.
\<close>

definition normalizedSchedule :: "real \<Rightarrow> real \<Rightarrow> real option \<Rightarrow> real \<Rightarrow> real list" where
  "normalizedSchedule peak spreadVal secondPeak tfr =
     (let schedule0 = rawSchedule peak spreadVal secondPeak;
          sum = reduce_sum schedule0
      in map (\<lambda>f. (f / sum) * tfr) schedule0)"

definition cappedSchedule :: "real \<Rightarrow> real \<Rightarrow> real option \<Rightarrow> real \<Rightarrow> real list" where
  "cappedSchedule peak spreadVal secondPeak tfr =
     map (\<lambda>f. min f MAX_ASFR) (normalizedSchedule peak spreadVal secondPeak tfr)"

subsection \<open>Component state\<close>

datatype scenario = Baseline | Early | Late | Bimodal | Custom

record params =
  peakAge :: real
  spread :: real
  secondPeak :: "real option"

text \<open>The preset table \<^verbatim>\<open>scenarios\<close> (names, descriptions and colours left out).\<close>

fun scenarios :: "scenario \<Rightarrow> params" where
  "scenarios Baseline = \<lparr>peakAge = 27, spread = 7, secondPeak = None\<rparr>"
| "scenarios Early = \<lparr>peakAge = 21, spread = 5, secondPeak = None\<rparr>"
| "scenarios Late = \<lparr>peakAge = 33, spread = 6, secondPeak = None\<rparr>"
| "scenarios Bimodal = \<lparr>peakAge = 20, spread = 4, secondPeak = Some 35\<rparr>"
| "scenarios Custom = \<lparr>peakAge = 27, spread = 7, secondPeak = None\<rparr>"

text \<open>
  One entry of \<^verbatim>\<open>history\<close>. The fields that share a name with a state variable
  carry the prefix \<open>h_\<close>.
\<close>

record history_entry =
  h_time :: nat
  population :: real
  births :: real
  deaths :: real
  meanParentAge :: real
  dependencyRatio :: real
  h_ageDistribution :: "real list"
  h_maleDistribution :: "real list"
  h_femaleDistribution :: "real list"
  h_lifeExpectancy :: real
  h_totalFertility :: real
  h_peakFertilityAge :: real
  h_fertilitySpread :: real
  h_sexRatioBirth :: real

text \<open>
  The state variables of the component that the engine reads or writes. The debug
  record and the axis ranges are display data and are left out.
\<close>

record state =
  isPlaying :: bool
  time :: nat
  scrubIndex :: "nat option"
  scenario :: scenario
  ageDistribution :: "real list"
  maleDistribution :: "real list"
  femaleDistribution :: "real list"
  history :: "history_entry list"
  totalFertility :: real
  lifeExpectancy :: real
  fertilitySpread :: real
  peakFertilityAge :: real
  sexRatioBirth :: real
  initialPopulation :: real
  simulationSpeed :: real

definition getEffectiveParams :: "state \<Rightarrow> params" where
  "getEffectiveParams st =
     (if scenario st = Custom
      then \<lparr>peakAge = peakFertilityAge st, spread = fertilitySpread st, secondPeak = None\<rparr>
      else scenarios (scenario st))"

text \<open>\<^verbatim>\<open>params.secondPeak || null\<close>: an absent or zero second peak becomes \<^verbatim>\<open>null\<close>.\<close>

definition orNull :: "real option \<Rightarrow> real option" where
  "orNull x = (case x of None \<Rightarrow> None | Some v \<Rightarrow> if v = 0 then None else Some v)"

text \<open>The values the state variables are declared with (\<^verbatim>\<open>useState\<close>).\<close>

definition initialState :: state where
  "initialState =
     \<lparr>isPlaying = False,
      time = 0,
      scrubIndex = None,
      scenario = Baseline,
      ageDistribution = [],
      maleDistribution = [],
      femaleDistribution = [],
      history = [],
      totalFertility = 2.1,
      lifeExpectancy = 75,
      fertilitySpread = 7,
      peakFertilityAge = 27,
      sexRatioBirth = 0.488,
      initialPopulation = 10000,
      simulationSpeed = 10\<rparr>"

subsection \<open>Initialisation\<close>

definition initialize :: "state \<Rightarrow> state" where
  "initialize st =
     (let params = getEffectiveParams st;
          survivalCurve = getSurvivalCurve (lifeExpectancy st) False;
          rawInitial = map (\<lambda>age. survivalCurve ! age) [0..<numAges];
          rawTotal = reduce_sum rawInitial;
          scaleFactor = initialPopulation st / rawTotal;
          initial = map (\<lambda>n. n * scaleFactor) rawInitial;
          fertilitySchedule =
            schedule (getFertilitySchedule (peakAge params) (spread params)
                        (orNull (secondPeak params)) (totalFertility st));
          (initialBirths, weightedAgeSum) =
            fold (\<lambda>age (initialBirths, weightedAgeSum).
                    let births = fertilitySchedule ! age * initial ! age * 0.5
                    in (initialBirths + births, weightedAgeSum + real age * births))
                 [12..<55] (0, 0);
          initialDeaths =
            fold (\<lambda>age initialDeaths.
                    let mortality = getMortalityRate (real age) (lifeExpectancy st) False
                    in initialDeaths + initial ! age * (1 - exp (- mortality)))
                 [0..<numAges] 0;
          meanParentAge =
            (if initialBirths > 0 then weightedAgeSum / initialBirths else peakAge params);
          young = reduce_sum (slice initial 0 15);
          old = reduce_sum (slice_from initial 65);
          working = reduce_sum (slice initial 15 65);
          depRatio = (if working > 0 then (young + old) / working else 0);
          initialMale = map (\<lambda>n. n * 0.5) initial;
          initialFemale = map (\<lambda>n. n * 0.5) initial;
          initialPop = reduce_sum initial
      in st\<lparr>ageDistribution := initial,
            maleDistribution := initialMale,
            femaleDistribution := initialFemale,
            time := 0,
            scrubIndex := None,
            history :=
              [\<lparr>h_time = 0,
                population = initialPop,
                births = initialBirths,
                deaths = initialDeaths,
                meanParentAge = meanParentAge,
                dependencyRatio = depRatio,
                h_ageDistribution = initial,
                h_maleDistribution = initialMale,
                h_femaleDistribution = initialFemale,
                h_lifeExpectancy = lifeExpectancy st,
                h_totalFertility = totalFertility st,
                h_peakFertilityAge = peakFertilityAge st,
                h_fertilitySpread = fertilitySpread st,
                h_sexRatioBirth = sexRatioBirth st\<rparr>]\<rparr>)"

subsection \<open>The yearly step\<close>

text \<open>The birth loop of \<^verbatim>\<open>simulateStep\<close>: births and the age-weighted sum.\<close>

definition birthLoop :: "real list \<Rightarrow> real list \<Rightarrow> real \<times> real" where
  "birthLoop fertilitySchedule female =
     fold (\<lambda>age (births, weightedAgeSum).
             let asfr = fertilitySchedule ! age;
                 birthsFromAge = asfr * female ! age
             in (births + birthsFromAge, weightedAgeSum + real age * birthsFromAge))
          [12..<55] (0, 0)"

text \<open>
  The ageing loop of one sex: a fresh array of zeros, the births at age 0, and the
  survivors of age \<open>age - 1\<close> of the old array at every later age.
\<close>

definition ageCohorts :: "real \<Rightarrow> real \<Rightarrow> bool \<Rightarrow> real list \<Rightarrow> real list" where
  "ageCohorts newborns e0 isMale old =
     fold (\<lambda>age new.
             let mortality = getMortalityRate (real (age - 1)) e0 isMale;
                 survivalProb = exp (- mortality)
             in new[age := max 0 (old ! (age - 1) * survivalProb)])
          [1..<numAges] ((replicate numAges 0)[0 := newborns])"

text \<open>
  The loop of the total distribution, which also adds up the deaths. The hazard is
  called without the sex argument, whose default is \<^verbatim>\<open>false\<close>.
\<close>

definition totalLoop :: "real \<Rightarrow> real \<Rightarrow> real list \<Rightarrow> real list \<times> real" where
  "totalLoop newborns e0 old =
     fold (\<lambda>age (newDist, deaths).
             let mortality = getMortalityRate (real (age - 1)) e0 False;
                 survivalProb = exp (- mortality);
                 survivors = old ! (age - 1) * survivalProb
             in (newDist[age := max 0 survivors],
                 deaths + old ! (age - 1) * (1 - survivalProb)))
          [1..<numAges] ((replicate numAges 0)[0 := newborns], 0)"

definition simulateStep :: "state \<Rightarrow> state" where
  "simulateStep st =
     (let params = getEffectiveParams st;
          fertilitySchedule =
            schedule (getFertilitySchedule (peakAge params) (spread params)
                        (orNull (secondPeak params)) (totalFertility st));
          (births, weightedAgeSum) = birthLoop fertilitySchedule (femaleDistribution st);
          meanParentAge = (if births > 0 then weightedAgeSum / births else peakAge params);
          newFemale =
            ageCohorts (births * sexRatioBirth st) (lifeExpectancy st) False
              (femaleDistribution st);
          newMale =
            ageCohorts (births * (1 - sexRatioBirth st)) (lifeExpectancy st) True
              (maleDistribution st);
          (newDist, deaths0) = totalLoop births (lifeExpectancy st) (ageDistribution st);
          deaths = deaths0 + ageDistribution st ! (numAges - 1);
          young = reduce_sum (slice newDist 0 15);
          old = reduce_sum (slice_from newDist 65);
          working = reduce_sum (slice newDist 15 65);
          dependencyRatio = (if working > 0 then (young + old) / working else 0);
          newPop = reduce_sum newDist
      in st\<lparr>femaleDistribution := newFemale,
            maleDistribution := newMale,
            ageDistribution := newDist,
            history := history st @
              [\<lparr>h_time = time st + 1,
                population = newPop,
                births = births,
                deaths = deaths,
                meanParentAge = meanParentAge,
                dependencyRatio = dependencyRatio,
                h_ageDistribution = newDist,
                h_maleDistribution = newMale,
                h_femaleDistribution = newFemale,
                h_lifeExpectancy = lifeExpectancy st,
                h_totalFertility = totalFertility st,
                h_peakFertilityAge = peakFertilityAge st,
                h_fertilitySpread = fertilitySpread st,
                h_sexRatioBirth = sexRatioBirth st\<rparr>],
            time := time st + 1\<rparr>)"

subsection \<open>Derived metrics\<close>

text \<open>
  \<^verbatim>\<open>growthRate\<close>, computed from the history: the optional chaining of the source
  never meets a missing entry when the guard holds, since both indices are in range.
\<close>

definition growthRate :: "history_entry list \<Rightarrow> real" where
  "growthRate h =
     (if length h > 10
      then ((population (h ! (length h - 1)) / population (h ! (length h - 10))) - 1)
             * 100 / 10
      else 0)"

text \<open>
  A history to evaluate \<open>growthRate\<close> on: \<open>n\<close> entries, one per year from year 0, the
  population growing by 100 a year from 1000. The other fields play no part in
  \<open>growthRate\<close> and are left at zero.
\<close>

definition sampleEntry :: "nat \<Rightarrow> history_entry" where
  "sampleEntry t =
     \<lparr>h_time = t,
      population = 1000 + 100 * real t,
      births = 0,
      deaths = 0,
      meanParentAge = 0,
      dependencyRatio = 0,
      h_ageDistribution = [],
      h_maleDistribution = [],
      h_femaleDistribution = [],
      h_lifeExpectancy = 75,
      h_totalFertility = 2.1,
      h_peakFertilityAge = 27,
      h_fertilitySpread = 7,
      h_sexRatioBirth = 0.488\<rparr>"

definition sampleHistory :: "nat \<Rightarrow> history_entry list" where
  "sampleHistory n = map sampleEntry [0..<n]"

section \<open>Properties\<close>

subsection \<open>Sums and loops\<close>

lemma foldl_plus_start: "foldl (\<lambda>a b. a + b) (s :: real) xs = s + sum_list xs"
  by (induction xs arbitrary: s) (simp_all add: add.assoc)

lemma reduce_sum_sum_list: "reduce_sum xs = sum_list xs"
  by (simp add: reduce_sum_def foldl_plus_start)

lemma calculateLifeExpectancy_sum_list: "calculateLifeExpectancy xs = sum_list xs"
  by (simp add: calculateLifeExpectancy_def foldl_plus_start)

lemma getMortalityRate_pos: "0 < getMortalityRate age e0 isMale"
  by (simp add: getMortalityRate_def Let_def MALE_INFANT_MULTIPLIER_def
      MALE_BACKGROUND_MULTIPLIER_def MALE_SENESCENT_MULTIPLIER_def add_pos_pos)

lemma getMortalityRate_le: "getMortalityRate age e0 isMale \<le> 0.6"
  by (simp add: getMortalityRate_def Let_def)

text \<open>The hazard before the cap, with the multipliers of the sex spelled out.\<close>

lemma getMortalityRate_mult:
  "getMortalityRate age e0 isMale =
     min (0.015 * exp ((75 - e0) * 0.055) * exp (- 0.7 * age) * (if isMale then 1.2 else 1)
          + 0.0004 * exp ((75 - e0) * 0.015) * (if isMale then 1.5 else 1)
          + 0.00002 * exp ((80 - e0) * 0.055) * exp (0.088 * age) * (if isMale then 1.15 else 1))
         0.6"
  by (simp add: getMortalityRate_def Let_def MALE_INFANT_MULTIPLIER_def
      MALE_BACKGROUND_MULTIPLIER_def MALE_SENESCENT_MULTIPLIER_def)

lemma getMortalityRate_sex: "getMortalityRate age e0 False \<le> getMortalityRate age e0 True"
  unfolding getMortalityRate_mult
  by (intro min.mono add_mono mult_left_mono) simp_all

subsection \<open>The survival curve in closed form\<close>

lemma upt_from_one_Suc: "[1..<Suc (Suc n)] = [1..<Suc n] @ [Suc n]"
  by simp

lemma survival_loop:
  "n < numAges \<Longrightarrow>
   fold (\<lambda>age survival.
           let mortality = getMortalityRate (real (age - 1)) e0 isMale
           in survival[age := survival ! (age - 1) * exp (- mortality)])
        [1..<Suc n] (replicate numAges 1)
   = map (\<lambda>a. if a \<le> n then (\<Prod>j<a. exp (- getMortalityRate (real j) e0 isMale)) else 1)
       [0..<numAges]"
proof (induction n)
  case 0
  show ?case
    by (auto intro!: nth_equalityI)
next
  case (Suc n)
  then have n: "n < numAges" "Suc n < numAges" by simp_all
  show ?case
    unfolding upt_from_one_Suc fold_append comp_def fold_simps Suc.IH [OF n(1)]
    using n by (auto intro!: nth_equalityI simp: Let_def nth_list_update)
qed

lemma getSurvivalCurve_closed:
  "getSurvivalCurve e0 isMale
   = map (\<lambda>a. \<Prod>j<a. exp (- getMortalityRate (real j) e0 isMale)) [0..<numAges]"
proof -
  have "getSurvivalCurve e0 isMale
        = map (\<lambda>a. if a \<le> 99 then (\<Prod>j<a. exp (- getMortalityRate (real j) e0 isMale)) else 1)
            [0..<numAges]"
    using survival_loop [of 99 e0 isMale]
    by (simp add: getSurvivalCurve_def numAges_def)
  also have "\<dots> = map (\<lambda>a. \<Prod>j<a. exp (- getMortalityRate (real j) e0 isMale)) [0..<numAges]"
    by (rule map_cong) (simp_all add: numAges_def)
  finally show ?thesis .
qed

lemma length_getSurvivalCurve: "length (getSurvivalCurve e0 isMale) = numAges"
  by (simp add: getSurvivalCurve_closed)

lemma getSurvivalCurve_nth:
  "a < numAges \<Longrightarrow>
   getSurvivalCurve e0 isMale ! a = (\<Prod>j<a. exp (- getMortalityRate (real j) e0 isMale))"
  by (simp add: getSurvivalCurve_closed)

lemma getSurvivalCurve_pos: "a < numAges \<Longrightarrow> 0 < getSurvivalCurve e0 isMale ! a"
  by (simp add: getSurvivalCurve_nth prod_pos)

lemma getSurvivalCurve_Suc:
  "Suc a < numAges \<Longrightarrow>
   getSurvivalCurve e0 isMale ! Suc a
   = getSurvivalCurve e0 isMale ! a * exp (- getMortalityRate (real a) e0 isMale)"
  by (simp add: getSurvivalCurve_nth)

lemma getSurvivalCurve_step_less:
  "Suc a < numAges \<Longrightarrow> getSurvivalCurve e0 isMale ! Suc a < getSurvivalCurve e0 isMale ! a"
proof -
  assume a: "Suc a < numAges"
  have "exp (- getMortalityRate (real a) e0 isMale) < 1"
    using getMortalityRate_pos [of "real a" e0 isMale] by simp
  moreover have "0 < getSurvivalCurve e0 isMale ! a"
    using a by (simp add: getSurvivalCurve_pos)
  ultimately show ?thesis
    using a by (simp add: getSurvivalCurve_Suc)
qed

lemma getSurvivalCurve_antimono:
  "a \<le> b \<Longrightarrow> b < numAges \<Longrightarrow> getSurvivalCurve e0 isMale ! b \<le> getSurvivalCurve e0 isMale ! a"
proof (induction b)
  case 0
  then show ?case by simp
next
  case (Suc b)
  show ?case
  proof (cases "a = Suc b")
    case True
    then show ?thesis by simp
  next
    case False
    with Suc.prems have "a \<le> b" "b < numAges" by simp_all
    then have "getSurvivalCurve e0 isMale ! b \<le> getSurvivalCurve e0 isMale ! a"
      by (rule Suc.IH)
    moreover have "getSurvivalCurve e0 isMale ! Suc b < getSurvivalCurve e0 isMale ! b"
      using Suc.prems by (simp add: getSurvivalCurve_step_less)
    ultimately show ?thesis by simp
  qed
qed

subsection \<open>Comparing survival curves\<close>

lemma getSurvivalCurve_mono_hazard:
  assumes "\<And>j. getMortalityRate (real j) e0' m' \<le> getMortalityRate (real j) e0 m"
    and "a < numAges"
  shows "getSurvivalCurve e0 m ! a \<le> getSurvivalCurve e0' m' ! a"
  using assms by (simp add: getSurvivalCurve_nth prod_mono)

lemma calculateLifeExpectancy_sum:
  "calculateLifeExpectancy (getSurvivalCurve e0 m)
   = (\<Sum>a<numAges. getSurvivalCurve e0 m ! a)"
proof -
  have "calculateLifeExpectancy (getSurvivalCurve e0 m)
        = sum_list (map (\<lambda>a. getSurvivalCurve e0 m ! a) [0..<numAges])"
    unfolding calculateLifeExpectancy_sum_list
    by (subst map_nth [symmetric]) (simp only: length_getSurvivalCurve)
  also have "\<dots> = (\<Sum>a<numAges. getSurvivalCurve e0 m ! a)"
    by (simp add: interv_sum_list_conv_sum_set_nat atLeast0LessThan)
  finally show ?thesis .
qed

lemma exp_3_le: "exp (3::real) \<le> 27"
proof -
  have "exp (3::real) = exp 1 ^ 3"
    by (simp add: exp_of_nat_mult [symmetric])
  also have "\<dots> \<le> 3 ^ 3"
    by (intro power_mono exp_le) simp
  finally show ?thesis by simp
qed

text \<open>For targets of 30 years and more the hazard of the newborn is below the cap.\<close>

lemma newborn_hazard_uncapped:
  assumes "30 \<le> e0"
  shows "0.015 * exp ((75 - e0) * 0.055) * exp (- 0.7 * 0) * (if isMale then 1.2 else 1)
          + 0.0004 * exp ((75 - e0) * 0.015) * (if isMale then 1.5 else 1)
          + 0.00002 * exp ((80 - e0) * 0.055) * exp (0.088 * 0) * (if isMale then 1.15 else 1)
         < (0.6::real)"
proof -
  have "exp ((75 - e0) * 0.055) \<le> exp 3" "exp ((75 - e0) * 0.015) \<le> exp 3"
    "exp ((80 - e0) * 0.055) \<le> exp 3"
    using assms by simp_all
  then have b: "exp ((75 - e0) * 0.055) \<le> 27" "exp ((75 - e0) * 0.015) \<le> 27"
    "exp ((80 - e0) * 0.055) \<le> 27"
    using exp_3_le by linarith+
  define x where "x = exp ((75 - e0) * 0.055)"
  define y where "y = exp ((75 - e0) * 0.015)"
  define z where "z = exp ((80 - e0) * 0.055)"
  have "0 < x" "0 < y" "0 < z" "x \<le> 27" "y \<le> 27" "z \<le> 27"
    using b by (simp_all add: x_def y_def z_def)
  then have "0.015 * x * 1 * (if isMale then 1.2 else 1)
          + 0.0004 * y * (if isMale then 1.5 else 1)
          + 0.00002 * z * 1 * (if isMale then 1.15 else 1) < (0.6::real)"
    by (cases isMale) simp_all
  then show ?thesis
    by (simp add: x_def y_def z_def)
qed

subsection \<open>Claims on the mortality model\<close>

text \<open>
  Claim C4. For every life-expectancy target (in particular for every target between
  30 and 95) and either sex, the curve returned by \<open>getSurvivalCurve\<close> has \<open>numAges\<close>
  entries, starts at exactly 1, follows \<open>l(a) = l(a - 1) * exp (- \<mu>(a - 1))\<close> at the
  ages 1 to \<open>numAges - 1\<close>, never increases with age, and stays in the interval \<open>(0, 1]\<close>.
\<close>

theorem C4_survival_curve:
  "length (getSurvivalCurve e0 isMale) = numAges
   \<and> getSurvivalCurve e0 isMale ! 0 = 1
   \<and> (\<forall>a. 1 \<le> a \<and> a < numAges \<longrightarrow>
         getSurvivalCurve e0 isMale ! a
         = getSurvivalCurve e0 isMale ! (a - 1)
           * exp (- getMortalityRate (real (a - 1)) e0 isMale))
   \<and> (\<forall>a b. a \<le> b \<and> b < numAges \<longrightarrow>
         getSurvivalCurve e0 isMale ! b \<le> getSurvivalCurve e0 isMale ! a)
   \<and> (\<forall>a. a < numAges \<longrightarrow>
         0 < getSurvivalCurve e0 isMale ! a \<and> getSurvivalCurve e0 isMale ! a \<le> 1)"
proof (intro conjI allI impI)
  show "length (getSurvivalCurve e0 isMale) = numAges"
    by (rule length_getSurvivalCurve)
  show first: "getSurvivalCurve e0 isMale ! 0 = 1"
    by (simp add: getSurvivalCurve_nth numAges_def)
  show "getSurvivalCurve e0 isMale ! a
        = getSurvivalCurve e0 isMale ! (a - 1) * exp (- getMortalityRate (real (a - 1)) e0 isMale)"
    if "1 \<le> a \<and> a < numAges" for a
  proof -
    from that obtain k where k: "a = Suc k" "Suc k < numAges"
      by (cases a) auto
    show ?thesis
      using getSurvivalCurve_Suc [OF k(2), of e0 isMale] by (simp add: k(1))
  qed
  show "getSurvivalCurve e0 isMale ! b \<le> getSurvivalCurve e0 isMale ! a"
    if "a \<le> b \<and> b < numAges" for a b
    using that by (simp add: getSurvivalCurve_antimono)
  show "0 < getSurvivalCurve e0 isMale ! a" if "a < numAges" for a
    using that by (rule getSurvivalCurve_pos)
  show "getSurvivalCurve e0 isMale ! a \<le> 1" if "a < numAges" for a
    using getSurvivalCurve_antimono [of 0 a e0 isMale] that first by simp
qed

theorem C4_survival_curve_witness:
  "length (getSurvivalCurve 75 False) = 100
   \<and> getSurvivalCurve 75 False ! 0 = 1
   \<and> getSurvivalCurve 75 False ! 1
     = getSurvivalCurve 75 False ! 0 * exp (- getMortalityRate 0 75 False)
   \<and> getSurvivalCurve 75 False ! 99 \<le> getSurvivalCurve 75 False ! 98
   \<and> 0 < getSurvivalCurve 75 False ! 99
   \<and> getSurvivalCurve 75 False ! 99 \<le> 1"
proof -
  note c = C4_survival_curve [of 75 False]
  from c have len: "length (getSurvivalCurve 75 False) = numAges"
    and first: "getSurvivalCurve 75 False ! 0 = 1"
    by blast+
  from c have "1 \<le> (1::nat) \<and> 1 < numAges \<longrightarrow>
      getSurvivalCurve 75 False ! 1
      = getSurvivalCurve 75 False ! (1 - 1) * exp (- getMortalityRate (real (1 - 1)) 75 False)"
    by blast
  then have rec: "getSurvivalCurve 75 False ! 1
      = getSurvivalCurve 75 False ! 0 * exp (- getMortalityRate 0 75 False)"
    by (simp add: numAges_def)
  from c have "(98::nat) \<le> 99 \<and> 99 < numAges \<longrightarrow>
      getSurvivalCurve 75 False ! 99 \<le> getSurvivalCurve 75 False ! 98"
    by blast
  then have mono: "getSurvivalCurve 75 False ! 99 \<le> getSurvivalCurve 75 False ! 98"
    by (simp add: numAges_def)
  from c have "99 < numAges \<longrightarrow>
      0 < getSurvivalCurve 75 False ! 99 \<and> getSurvivalCurve 75 False ! 99 \<le> 1"
    by blast
  then have rng: "0 < getSurvivalCurve 75 False ! 99" "getSurvivalCurve 75 False ! 99 \<le> 1"
    by (simp_all add: numAges_def)
  from len have len': "length (getSurvivalCurve 75 False) = 100"
    by (simp add: numAges_def)
  show ?thesis
    by (intro conjI len' first rec mono rng)
qed

text \<open>
  Claim C9. At every age and for every life-expectancy target the male hazard is at
  least the female hazard, also after the cap at 0.6; hence the male survival curve
  lies pointwise on or below the female one, and the realized male life expectancy
  does not exceed the female one.
\<close>

theorem C9_sex_differential:
  "(\<forall>a. a < numAges \<longrightarrow>
      getMortalityRate (real a) e0 False \<le> getMortalityRate (real a) e0 True
      \<and> getSurvivalCurve e0 True ! a \<le> getSurvivalCurve e0 False ! a)
   \<and> calculateLifeExpectancy (getSurvivalCurve e0 True)
     \<le> calculateLifeExpectancy (getSurvivalCurve e0 False)"
proof -
  have le: "getSurvivalCurve e0 True ! a \<le> getSurvivalCurve e0 False ! a"
    if "a < numAges" for a
    using that by (intro getSurvivalCurve_mono_hazard getMortalityRate_sex)
  have "(\<Sum>a<numAges. getSurvivalCurve e0 True ! a)
        \<le> (\<Sum>a<numAges. getSurvivalCurve e0 False ! a)"
    by (rule sum_mono) (simp add: le)
  then show ?thesis
    using le by (simp add: calculateLifeExpectancy_sum getMortalityRate_sex)
qed

theorem C9_sex_differential_witness:
  "getMortalityRate 40 75 False \<le> getMortalityRate 40 75 True
   \<and> getSurvivalCurve 75 True ! 40 \<le> getSurvivalCurve 75 False ! 40
   \<and> calculateLifeExpectancy (getSurvivalCurve 75 True)
     \<le> calculateLifeExpectancy (getSurvivalCurve 75 False)"
proof -
  note c = C9_sex_differential [of 75]
  from c have "40 < numAges \<longrightarrow>
      getMortalityRate (real 40) 75 False \<le> getMortalityRate (real 40) 75 True
      \<and> getSurvivalCurve 75 True ! 40 \<le> getSurvivalCurve 75 False ! 40"
    by blast
  then have a: "getMortalityRate 40 75 False \<le> getMortalityRate 40 75 True"
    and b: "getSurvivalCurve 75 True ! 40 \<le> getSurvivalCurve 75 False ! 40"
    by (simp_all add: numAges_def)
  from c have e: "calculateLifeExpectancy (getSurvivalCurve 75 True)
     \<le> calculateLifeExpectancy (getSurvivalCurve 75 False)"
    by blast
  show ?thesis
    by (intro conjI a b e)
qed

subsection \<open>The loops of the yearly step\<close>

lemma ageCohorts_loop:
  "n < numAges \<Longrightarrow>
   fold (\<lambda>age new.
           let mortality = getMortalityRate (real (age - 1)) e0 isMale;
               survivalProb = exp (- mortality)
           in new[age := max 0 (old ! (age - 1) * survivalProb)])
        [1..<Suc n] ((replicate numAges 0)[0 := newborns])
   = map (\<lambda>a. if a = 0 then newborns
               else if a \<le> n
                 then max 0 (old ! (a - 1) * exp (- getMortalityRate (real (a - 1)) e0 isMale))
                 else 0)
       [0..<numAges]"
proof (induction n)
  case 0
  show ?case
    by (auto intro!: nth_equalityI simp: nth_list_update)
next
  case (Suc n)
  then have n: "n < numAges" "Suc n < numAges" by simp_all
  show ?case
    unfolding upt_from_one_Suc fold_append comp_def fold_simps Suc.IH [OF n(1)]
    using n by (auto intro!: nth_equalityI simp: Let_def nth_list_update)
qed

lemma ageCohorts_closed:
  "ageCohorts newborns e0 isMale old
   = map (\<lambda>a. if a = 0 then newborns
               else max 0 (old ! (a - 1) * exp (- getMortalityRate (real (a - 1)) e0 isMale)))
       [0..<numAges]"
proof -
  have "ageCohorts newborns e0 isMale old
        = map (\<lambda>a. if a = 0 then newborns
               else if a \<le> 99
                 then max 0 (old ! (a - 1) * exp (- getMortalityRate (real (a - 1)) e0 isMale))
                 else 0)
            [0..<numAges]"
    using ageCohorts_loop [of 99 e0 isMale old newborns]
    by (simp add: ageCohorts_def numAges_def)
  also have "\<dots> = map (\<lambda>a. if a = 0 then newborns
               else max 0 (old ! (a - 1) * exp (- getMortalityRate (real (a - 1)) e0 isMale)))
       [0..<numAges]"
    by (rule map_cong) (simp_all add: numAges_def)
  finally show ?thesis .
qed


lemma ageCohorts_0: "ageCohorts newborns e0 isMale old ! 0 = newborns"
  by (simp add: ageCohorts_closed numAges_def)

lemma ageCohorts_Suc:
  "Suc a < numAges \<Longrightarrow>
   ageCohorts newborns e0 isMale old ! Suc a
   = max 0 (old ! a * exp (- getMortalityRate (real a) e0 isMale))"
  by (simp add: ageCohorts_closed)

text \<open>A loop that updates an array and adds to a counter does both independently.\<close>

lemma fold_update_and_add:
  "fold (\<lambda>i (arr, acc). (arr[i := g i], acc + h i)) xs (arr0, acc0 :: real)
   = (fold (\<lambda>i arr. arr[i := g i]) xs arr0, acc0 + sum_list (map h xs))"
  by (induction xs arbitrary: arr0 acc0) (simp_all add: add.assoc)

lemma totalLoop_closed:
  "totalLoop newborns e0 old
   = (ageCohorts newborns e0 False old,
      (\<Sum>age = 1..<numAges.
          old ! (age - 1) * (1 - exp (- getMortalityRate (real (age - 1)) e0 False))))"
  unfolding totalLoop_def ageCohorts_def Let_def fold_update_and_add
  by (simp add: interv_sum_list_conv_sum_set_nat)



subsection \<open>What one step writes\<close>


lemma step_ageDistribution:
  "ageDistribution (simulateStep st)
   = ageCohorts (births (last (history (simulateStep st)))) (lifeExpectancy st) False
       (ageDistribution st)"
  by (simp add: simulateStep_def Let_def split_beta totalLoop_closed)

lemma step_femaleDistribution:
  "femaleDistribution (simulateStep st)
   = ageCohorts (births (last (history (simulateStep st))) * sexRatioBirth st)
       (lifeExpectancy st) False (femaleDistribution st)"
  by (simp add: simulateStep_def Let_def split_beta)

lemma step_maleDistribution:
  "maleDistribution (simulateStep st)
   = ageCohorts (births (last (history (simulateStep st))) * (1 - sexRatioBirth st))
       (lifeExpectancy st) True (maleDistribution st)"
  by (simp add: simulateStep_def Let_def split_beta)

lemma step_deaths:
  "deaths (last (history (simulateStep st)))
   = (\<Sum>age = 1..<numAges.
        ageDistribution st ! (age - 1)
        * (1 - exp (- getMortalityRate (real (age - 1)) (lifeExpectancy st) False)))
     + ageDistribution st ! (numAges - 1)"
  by (simp add: simulateStep_def Let_def split_beta totalLoop_closed)

lemma step_population:
  "population (last (history (simulateStep st))) = reduce_sum (ageDistribution (simulateStep st))"
  by (simp add: simulateStep_def Let_def split_beta)

lemma step_history:
  "length (history (simulateStep st)) = Suc (length (history st))"
  "time (simulateStep st) = time st + 1"
  by (simp_all add: simulateStep_def Let_def split_beta)

subsection \<open>Mass balance of the total distribution\<close>

lemma sum_ageCohorts:
  assumes "\<And>a. a < numAges \<Longrightarrow> 0 \<le> old ! a"
  shows "reduce_sum (ageCohorts newborns e0 isMale old)
         = newborns
           + (\<Sum>age = 1..<numAges.
                old ! (age - 1) * exp (- getMortalityRate (real (age - 1)) e0 isMale))"
proof -
  let ?g = "\<lambda>a. if a = 0 then newborns
               else max 0 (old ! (a - 1) * exp (- getMortalityRate (real (a - 1)) e0 isMale))"
  have "reduce_sum (ageCohorts newborns e0 isMale old) = sum ?g {0..<numAges}"
    by (simp add: reduce_sum_sum_list ageCohorts_closed interv_sum_list_conv_sum_set_nat)
  also have "\<dots> = ?g 0 + sum ?g {Suc 0..<numAges}"
    by (rule sum.atLeast_Suc_lessThan) (simp add: numAges_def)
  also have "sum ?g {Suc 0..<numAges}
             = (\<Sum>age = 1..<numAges.
                  old ! (age - 1) * exp (- getMortalityRate (real (age - 1)) e0 isMale))"
  proof (rule sum.cong)
    fix a assume a: "a \<in> {1..<numAges}"
    then have "a - 1 < numAges"
      by auto
    then have "0 \<le> old ! (a - 1)"
      by (rule assms)
    then have "0 \<le> old ! (a - 1) * exp (- getMortalityRate (real (a - 1)) e0 isMale)"
      by simp
    then show "?g a = old ! (a - 1) * exp (- getMortalityRate (real (a - 1)) e0 isMale)"
      using a by simp
  qed simp
  finally show ?thesis by simp
qed

lemma sum_old_split:
  assumes "length old = numAges"
  shows "reduce_sum old = (\<Sum>age = 1..<numAges. old ! (age - 1)) + old ! (numAges - 1)"
proof -
  have "reduce_sum old = (\<Sum>a = 0..<Suc 99. old ! a)"
    using assms by (simp add: reduce_sum_sum_list sum_list_sum_nth numAges_def)
  also have "\<dots> = (\<Sum>a = 0..<99. old ! a) + old ! 99"
    by (rule sum.atLeastLessThan_Suc) simp
  also have "(\<Sum>a = 0..<99. old ! a) = (\<Sum>age = Suc 0..<Suc 99. old ! (age - 1))"
    by (simp only: sum.shift_bounds_Suc_ivl diff_Suc_1)
  finally show ?thesis
    by (simp add: numAges_def)
qed

subsection \<open>What the initialisation writes\<close>

lemma rawInitial_eq:
  "map (\<lambda>age. getSurvivalCurve e0 isMale ! age) [0..<numAges] = getSurvivalCurve e0 isMale"
  using map_nth [of "getSurvivalCurve e0 isMale"] by (simp only: length_getSurvivalCurve)

lemma init_ageDistribution:
  "ageDistribution (initialize st)
   = map (\<lambda>n. n * (initialPopulation st / reduce_sum (getSurvivalCurve (lifeExpectancy st) False)))
       (getSurvivalCurve (lifeExpectancy st) False)"
  unfolding initialize_def Let_def split_beta rawInitial_eq by simp

lemma init_maleDistribution:
  "maleDistribution (initialize st) = map (\<lambda>n. n * 0.5) (ageDistribution (initialize st))"
  by (simp add: initialize_def Let_def split_beta)

lemma init_femaleDistribution:
  "femaleDistribution (initialize st) = map (\<lambda>n. n * 0.5) (ageDistribution (initialize st))"
  by (simp add: initialize_def Let_def split_beta)

lemma init_params:
  "lifeExpectancy (initialize st) = lifeExpectancy st"
  "totalFertility (initialize st) = totalFertility st"
  "sexRatioBirth (initialize st) = sexRatioBirth st"
  "getEffectiveParams (initialize st) = getEffectiveParams st"
  by (simp_all add: initialize_def Let_def split_beta getEffectiveParams_def)

lemma length_init_ageDistribution: "length (ageDistribution (initialize st)) = numAges"
  by (simp add: init_ageDistribution length_getSurvivalCurve)

lemma reduce_sum_getSurvivalCurve_pos: "0 < reduce_sum (getSurvivalCurve e0 isMale)"
proof -
  have "reduce_sum (getSurvivalCurve e0 isMale) = (\<Sum>a<numAges. getSurvivalCurve e0 isMale ! a)"
    using calculateLifeExpectancy_sum [of e0 isMale]
    by (simp add: calculateLifeExpectancy_sum_list reduce_sum_sum_list)
  also have "0 < \<dots>"
  proof (rule sum_pos)
    have "0 \<in> {..<numAges}"
      by (simp add: numAges_def)
    then show "{..<numAges} \<noteq> {}"
      by blast
  qed (simp_all add: getSurvivalCurve_pos)
  finally show ?thesis .
qed

lemma init_ageDistribution_nth:
  "a < numAges \<Longrightarrow>
   ageDistribution (initialize st) ! a
   = getSurvivalCurve (lifeExpectancy st) False ! a
     * (initialPopulation st / reduce_sum (getSurvivalCurve (lifeExpectancy st) False))"
  by (simp add: init_ageDistribution length_getSurvivalCurve)

lemma init_ageDistribution_nonneg:
  assumes "0 \<le> initialPopulation st"
  shows "list_all (\<lambda>n. 0 \<le> n) (ageDistribution (initialize st))"
proof -
  have "0 \<le> getSurvivalCurve (lifeExpectancy st) False ! a
     * (initialPopulation st / reduce_sum (getSurvivalCurve (lifeExpectancy st) False))"
    if "a < numAges" for a
    using that assms getSurvivalCurve_pos [of a "lifeExpectancy st" False]
      reduce_sum_getSurvivalCurve_pos [of "lifeExpectancy st" False]
    by simp
  then show ?thesis
    by (simp add: list_all_length length_init_ageDistribution init_ageDistribution_nth)
qed

subsection \<open>Claim on the mass balance\<close>

text \<open>
  Claim C1. For every state whose total distribution has \<open>numAges\<close> nonnegative
  entries, one step leaves the sum of the new total distribution equal to the sum of
  the old one minus the deaths plus the births of that step, where the deaths are the
  sum of \<open>old[age - 1] * (1 - exp (- \<mu>(age - 1)))\<close> over the ages 1 to \<open>numAges - 1\<close> plus
  the whole oldest cohort \<open>old[numAges - 1]\<close>. (Equality in exact arithmetic.)
\<close>

theorem C1_mass_conservation:
  assumes "length (ageDistribution st) = numAges"
    and "list_all (\<lambda>n. 0 \<le> n) (ageDistribution st)"
  shows "reduce_sum (ageDistribution (simulateStep st))
         = reduce_sum (ageDistribution st)
           - deaths (last (history (simulateStep st)))
           + births (last (history (simulateStep st)))
       \<and> deaths (last (history (simulateStep st)))
         = (\<Sum>age = 1..<numAges.
              ageDistribution st ! (age - 1)
              * (1 - exp (- getMortalityRate (real (age - 1)) (lifeExpectancy st) False)))
           + ageDistribution st ! (numAges - 1)"
proof -
  let ?old = "ageDistribution st"
  let ?mu = "\<lambda>age. getMortalityRate (real (age - 1)) (lifeExpectancy st) False"
  have nonneg: "0 \<le> ?old ! a" if "a < numAges" for a
    using assms that by (simp add: list_all_length)
  have new: "reduce_sum (ageDistribution (simulateStep st))
             = births (last (history (simulateStep st)))
               + (\<Sum>age = 1..<numAges. ?old ! (age - 1) * exp (- ?mu age))"
    unfolding step_ageDistribution using nonneg by (rule sum_ageCohorts)
  have old: "reduce_sum ?old = (\<Sum>age = 1..<numAges. ?old ! (age - 1)) + ?old ! (numAges - 1)"
    using assms(1) by (rule sum_old_split)
  have "(\<Sum>age = 1..<numAges. ?old ! (age - 1))
        - (\<Sum>age = 1..<numAges. ?old ! (age - 1) * (1 - exp (- ?mu age)))
        = (\<Sum>age = 1..<numAges. ?old ! (age - 1) * exp (- ?mu age))"
    by (simp add: sum_subtractf [symmetric] algebra_simps)
  then show ?thesis
    unfolding new old step_deaths by simp
qed

theorem C1_mass_conservation_witness:
  "length (ageDistribution (initialize initialState)) = numAges
   \<and> list_all (\<lambda>n. 0 \<le> n) (ageDistribution (initialize initialState))
   \<and> reduce_sum (ageDistribution (simulateStep (initialize initialState)))
     = reduce_sum (ageDistribution (initialize initialState))
       - deaths (last (history (simulateStep (initialize initialState))))
       + births (last (history (simulateStep (initialize initialState))))"
proof -
  have len: "length (ageDistribution (initialize initialState)) = numAges"
    by (rule length_init_ageDistribution)
  have nonneg: "list_all (\<lambda>n. 0 \<le> n) (ageDistribution (initialize initialState))"
    by (rule init_ageDistribution_nonneg) (simp add: initialState_def)
  show ?thesis
    using C1_mass_conservation [OF len nonneg] len nonneg by blast
qed

subsection \<open>The three tracks of the population\<close>

lemma getMortalityRate_sex_strict:
  assumes "getMortalityRate age e0 False < 0.6"
  shows "getMortalityRate age e0 False < getMortalityRate age e0 True"
proof -
  define i where "i = 0.015 * exp ((75 - e0) * 0.055) * exp (- 0.7 * age)"
  define b where "b = 0.0004 * exp ((75 - e0) * 0.015)"
  define s where "s = 0.00002 * exp ((80 - e0) * 0.055) * exp (0.088 * age)"
  have pos: "0 < i" "0 < b" "0 < s"
    by (simp_all add: i_def b_def s_def)
  have f: "getMortalityRate age e0 False = min (i + b + s) 0.6"
    by (simp add: getMortalityRate_mult i_def b_def s_def)
  have m: "getMortalityRate age e0 True = min (i * 1.2 + b * 1.5 + s * 1.15) 0.6"
    by (simp add: getMortalityRate_mult i_def b_def s_def)
  have "i + b + s < i * 1.2 + b * 1.5 + s * 1.15"
    using pos by simp
  moreover have "i + b + s < 0.6"
    using assms unfolding f by (simp add: min_def split: if_splits)
  ultimately show ?thesis
    unfolding f m by (simp add: min_def)
qed

text \<open>After the initialisation the total is the sum of the two sexes.\<close>

lemma init_sex_consistent:
  assumes "a < numAges"
  shows "ageDistribution (initialize st) ! a
         = maleDistribution (initialize st) ! a + femaleDistribution (initialize st) ! a"
  using assms
  by (simp add: init_maleDistribution init_femaleDistribution length_init_ageDistribution)

text \<open>After a step the newborns of the two sexes add up to the births.\<close>

lemma step_sex_consistent_newborns:
  "ageDistribution (simulateStep st) ! 0
   = maleDistribution (simulateStep st) ! 0 + femaleDistribution (simulateStep st) ! 0"
  by (simp add: step_ageDistribution step_maleDistribution step_femaleDistribution
      ageCohorts_0 algebra_simps)

text \<open>
  At a later age the total is aged with the female hazard, the men with the male
  hazard: wherever there are men and the female hazard is below the cap, the total
  after the step exceeds the sum of the two sexes.
\<close>

lemma step_total_exceeds_sexes:
  assumes a: "Suc a < numAges"
    and cons: "ageDistribution st ! a = maleDistribution st ! a + femaleDistribution st ! a"
    and men: "0 < maleDistribution st ! a"
    and women: "0 \<le> femaleDistribution st ! a"
    and cap: "getMortalityRate (real a) (lifeExpectancy st) False < 0.6"
  shows "maleDistribution (simulateStep st) ! Suc a + femaleDistribution (simulateStep st) ! Suc a
         < ageDistribution (simulateStep st) ! Suc a"
proof -
  let ?f = "exp (- getMortalityRate (real a) (lifeExpectancy st) False)"
  let ?m = "exp (- getMortalityRate (real a) (lifeExpectancy st) True)"
  have lt: "?m < ?f"
    using getMortalityRate_sex_strict [OF cap] by simp
  have "maleDistribution st ! a * ?m < maleDistribution st ! a * ?f"
    using men lt by simp
  moreover have "0 \<le> maleDistribution st ! a * ?m" "0 \<le> femaleDistribution st ! a * ?f"
    using men women by simp_all
  ultimately show ?thesis
    using a cons
    by (simp add: step_ageDistribution step_maleDistribution step_femaleDistribution
        ageCohorts_Suc algebra_simps max_def)
qed

lemma newborn_hazard_below_cap:
  "30 \<le> e0 \<Longrightarrow> getMortalityRate 0 e0 isMale < 0.6"
  using newborn_hazard_uncapped [of e0 isMale] unfolding getMortalityRate_mult by simp

subsection \<open>Claim on the consistency of the sexes\<close>

text \<open>
  Claim C2 asks that the total distribution equals the sum of the male and the female
  distribution at every age after the initialisation and after every step. The
  initialisation and the newborns of a step meet it (\<open>init_sex_consistent\<close>,
  \<open>step_sex_consistent_newborns\<close>). The first step from the start-up state breaks it
  at age 1: the total is aged with the female hazard, so it exceeds the sum of the
  sexes.
\<close>

theorem C2_sex_consistency_broken_by_step:
  "maleDistribution (simulateStep (initialize initialState)) ! 1
   + femaleDistribution (simulateStep (initialize initialState)) ! 1
   < ageDistribution (simulateStep (initialize initialState)) ! 1"
proof -
  let ?s = "initialize initialState"
  have e0: "lifeExpectancy ?s = 75"
    by (simp add: init_params initialState_def)
  have total0: "0 < ageDistribution ?s ! 0"
    using getSurvivalCurve_pos [of 0 75 False] reduce_sum_getSurvivalCurve_pos [of 75 False]
    by (simp add: init_ageDistribution_nth numAges_def initialState_def)
  have men: "0 < maleDistribution ?s ! 0"
    using total0 by (simp add: init_maleDistribution length_init_ageDistribution numAges_def)
  have women: "0 \<le> femaleDistribution ?s ! 0"
    using total0 by (simp add: init_femaleDistribution length_init_ageDistribution numAges_def)
  have cons: "ageDistribution ?s ! 0 = maleDistribution ?s ! 0 + femaleDistribution ?s ! 0"
    by (rule init_sex_consistent) (simp add: numAges_def)
  have cap: "getMortalityRate (real 0) (lifeExpectancy ?s) False < 0.6"
    unfolding e0 using newborn_hazard_below_cap [of 75 False] by simp
  have "Suc 0 < numAges"
    by (simp add: numAges_def)
  from step_total_exceeds_sexes [OF this cons men women cap] show ?thesis
    by simp
qed

subsection \<open>The raw fertility shape\<close>

lemma fold_update_range:
  "n \<le> length xs \<Longrightarrow>
   fold (\<lambda>i arr. arr[i := g i]) [m..<n] xs
   = map (\<lambda>a. if m \<le> a \<and> a < n then g a else xs ! a) [0..<length xs]"
proof (induction n)
  case 0
  show ?case
    by (simp add: map_nth)
next
  case (Suc n)
  show ?case
  proof (cases "m \<le> n")
    case True
    then have "[m..<Suc n] = [m..<n] @ [n]"
      by simp
    then show ?thesis
      using Suc True by (auto intro!: nth_equalityI simp: nth_list_update)
  next
    case False
    then show ?thesis
      by (auto intro!: nth_equalityI)
  qed
qed

lemma rawValue_pos: "0 < rawValue peak sigma second age"
proof -
  have "0 \<le> (case second of
               None \<Rightarrow> 0
             | Some sp \<Rightarrow>
                 if sp \<noteq> 0 \<and> \<bar>sp - peak\<bar> > 5
                 then exp (- ((real age - sp) ^ 2) / (2 * sigma ^ 2)) * 0.6
                 else (0::real))"
    by (simp split: option.split)
  then have "0 < exp (- ((real age - peak) ^ 2) / (2 * sigma ^ 2))
                 + (case second of
                      None \<Rightarrow> 0
                    | Some sp \<Rightarrow>
                        if sp \<noteq> 0 \<and> \<bar>sp - peak\<bar> > 5
                        then exp (- ((real age - sp) ^ 2) / (2 * sigma ^ 2)) * 0.6
                        else 0)"
    by (rule add_pos_nonneg [OF exp_gt_zero])
  moreover have "0 < (if age > 40 then exp (- 0.1 * (real age - 40)) else (1.0::real))"
    by simp
  ultimately show ?thesis
    unfolding rawValue_def Let_def by (rule mult_pos_pos)
qed

lemma rawSchedule_closed:
  "rawSchedule peak spreadVal second
   = map (\<lambda>a. if 12 \<le> a \<and> a < 55 then rawValue peak (max spreadVal 2.5) second a else 0)
       [0..<numAges]"
  unfolding rawSchedule_def Let_def
  by (subst fold_update_range) (auto simp: numAges_def)

lemma length_rawSchedule: "length (rawSchedule peak spreadVal second) = numAges"
  by (simp add: rawSchedule_closed)

lemma rawSchedule_outside:
  "a < numAges \<Longrightarrow> \<not> (12 \<le> a \<and> a < 55) \<Longrightarrow> rawSchedule peak spreadVal second ! a = 0"
  by (auto simp: rawSchedule_closed)

lemma rawSchedule_inside:
  "12 \<le> a \<Longrightarrow> a < 55 \<Longrightarrow>
   rawSchedule peak spreadVal second ! a = rawValue peak (max spreadVal 2.5) second a"
  by (simp add: rawSchedule_closed numAges_def)

lemma rawSchedule_pos:
  "12 \<le> a \<Longrightarrow> a < 55 \<Longrightarrow> 0 < rawSchedule peak spreadVal second ! a"
  by (simp add: rawSchedule_inside rawValue_pos)

lemma rawSchedule_nonneg: "a < numAges \<Longrightarrow> 0 \<le> rawSchedule peak spreadVal second ! a"
  using rawSchedule_pos [of a peak spreadVal second]
    rawSchedule_outside [of a peak spreadVal second]
  by (cases "12 \<le> a \<and> a < 55") (simp_all add: less_imp_le)

lemma reduce_sum_nth: "reduce_sum xs = (\<Sum>a<length xs. xs ! a)"
  by (simp add: reduce_sum_sum_list sum_list_sum_nth atLeast0LessThan)

lemma reduce_sum_rawSchedule_pos: "0 < reduce_sum (rawSchedule peak spreadVal second)"
proof -
  have "rawSchedule peak spreadVal second ! 12
        \<le> (\<Sum>a<numAges. rawSchedule peak spreadVal second ! a)"
    by (rule member_le_sum) (simp_all add: numAges_def rawSchedule_nonneg)
  moreover have "0 < rawSchedule peak spreadVal second ! 12"
    by (rule rawSchedule_pos) simp_all
  ultimately show ?thesis
    by (simp add: reduce_sum_nth length_rawSchedule)
qed

subsection \<open>Normalising and capping\<close>

lemma length_normalizedSchedule: "length (normalizedSchedule peak spreadVal second tfr) = numAges"
  by (simp add: normalizedSchedule_def Let_def length_rawSchedule)

lemma length_cappedSchedule: "length (cappedSchedule peak spreadVal second tfr) = numAges"
  by (simp add: cappedSchedule_def length_normalizedSchedule)

lemma normalizedSchedule_nth:
  "a < numAges \<Longrightarrow>
   normalizedSchedule peak spreadVal second tfr ! a
   = rawSchedule peak spreadVal second ! a / reduce_sum (rawSchedule peak spreadVal second) * tfr"
  by (simp add: normalizedSchedule_def Let_def length_rawSchedule)

lemma cappedSchedule_nth:
  "a < numAges \<Longrightarrow>
   cappedSchedule peak spreadVal second tfr ! a
   = min (normalizedSchedule peak spreadVal second tfr ! a) MAX_ASFR"
  by (simp add: cappedSchedule_def length_normalizedSchedule)

lemma normalizedSchedule_nonneg:
  "0 \<le> tfr \<Longrightarrow> a < numAges \<Longrightarrow> 0 \<le> normalizedSchedule peak spreadVal second tfr ! a"
  using rawSchedule_nonneg [of a peak spreadVal second]
    reduce_sum_rawSchedule_pos [of peak spreadVal second]
  by (simp add: normalizedSchedule_nth)

lemma normalizedSchedule_outside:
  "a < numAges \<Longrightarrow> \<not> (12 \<le> a \<and> a < 55) \<Longrightarrow>
   normalizedSchedule peak spreadVal second tfr ! a = 0"
  by (simp add: normalizedSchedule_nth rawSchedule_outside)

lemma reduce_sum_normalizedSchedule:
  "reduce_sum (normalizedSchedule peak spreadVal second tfr) = tfr"
proof -
  let ?raw = "rawSchedule peak spreadVal second"
  have "reduce_sum (normalizedSchedule peak spreadVal second tfr)
        = (\<Sum>a<numAges. ?raw ! a / reduce_sum ?raw * tfr)"
    by (simp add: reduce_sum_nth length_normalizedSchedule normalizedSchedule_nth)
  also have "\<dots> = (\<Sum>a<numAges. ?raw ! a) / reduce_sum ?raw * tfr"
    by (simp add: sum_divide_distrib sum_distrib_right)
  also have "(\<Sum>a<numAges. ?raw ! a) = reduce_sum ?raw"
    by (simp add: reduce_sum_nth length_rawSchedule)
  finally show ?thesis
    using reduce_sum_rawSchedule_pos [of peak spreadVal second] by simp
qed

lemma cappedSchedule_bounds:
  assumes "0 \<le> tfr" "a < numAges"
  shows "0 \<le> cappedSchedule peak spreadVal second tfr ! a"
    and "cappedSchedule peak spreadVal second tfr ! a \<le> MAX_ASFR"
    and "cappedSchedule peak spreadVal second tfr ! a
         \<le> normalizedSchedule peak spreadVal second tfr ! a"
  using assms normalizedSchedule_nonneg [OF assms, of peak spreadVal second]
  by (simp_all add: cappedSchedule_nth MAX_ASFR_def)

lemma cappedSchedule_outside:
  "a < numAges \<Longrightarrow> \<not> (12 \<le> a \<and> a < 55) \<Longrightarrow>
   cappedSchedule peak spreadVal second tfr ! a = 0"
  by (simp add: cappedSchedule_nth normalizedSchedule_outside MAX_ASFR_def)

lemma reduce_sum_cappedSchedule_le:
  "reduce_sum (cappedSchedule peak spreadVal second tfr) \<le> tfr"
proof -
  have "(\<Sum>a<numAges. cappedSchedule peak spreadVal second tfr ! a)
        \<le> (\<Sum>a<numAges. normalizedSchedule peak spreadVal second tfr ! a)"
    by (rule sum_mono) (simp add: cappedSchedule_nth)
  then show ?thesis
    using reduce_sum_normalizedSchedule [of peak spreadVal second tfr]
    by (simp add: reduce_sum_nth length_cappedSchedule length_normalizedSchedule)
qed


text \<open>A clamped age makes the capped sum fall short of the target.\<close>

lemma reduce_sum_cappedSchedule_less:
  assumes "a < numAges" "MAX_ASFR < normalizedSchedule peak spreadVal second tfr ! a"
  shows "reduce_sum (cappedSchedule peak spreadVal second tfr) < tfr"
proof -
  have "(\<Sum>a<numAges. cappedSchedule peak spreadVal second tfr ! a)
        < (\<Sum>a<numAges. normalizedSchedule peak spreadVal second tfr ! a)"
  proof (rule sum_strict_mono_ex1)
    show "\<forall>a\<in>{..<numAges}. cappedSchedule peak spreadVal second tfr ! a
            \<le> normalizedSchedule peak spreadVal second tfr ! a"
      by (simp add: cappedSchedule_nth)
    show "\<exists>a\<in>{..<numAges}. cappedSchedule peak spreadVal second tfr ! a
            < normalizedSchedule peak spreadVal second tfr ! a"
      using assms by (intro bexI [of _ a]) (simp_all add: cappedSchedule_nth)
  qed simp
  then show ?thesis
    using reduce_sum_normalizedSchedule [of peak spreadVal second tfr]
    by (simp add: reduce_sum_nth length_cappedSchedule length_normalizedSchedule)
qed

subsection \<open>The result of \<open>getFertilitySchedule\<close>\<close>

lemma getFertilitySchedule_unfold:
  "getFertilitySchedule peak spreadVal second tfr
   = (if reduce_sum (rawSchedule peak spreadVal second) < 1 / 10 ^ 10
      then \<lparr>schedule = rawSchedule peak spreadVal second,
            biologicallyCapped = None, effectiveTFR = None\<rparr>
      else
        \<lparr>schedule =
           (if reduce_sum (cappedSchedule peak spreadVal second tfr) < tfr * 0.99
            then
              if length (filter (\<lambda>x. x)
                   (map_indexed (\<lambda>f a. f < MAX_ASFR \<and> a \<ge> 12 \<and> a < 55)
                      (cappedSchedule peak spreadVal second tfr))) > 0
              then map_indexed
                     (\<lambda>f a. if map_indexed (\<lambda>f a. f < MAX_ASFR \<and> a \<ge> 12 \<and> a < 55)
                                  (cappedSchedule peak spreadVal second tfr) ! a
                            then min (f + (tfr - reduce_sum (cappedSchedule peak spreadVal second tfr))
                                          / real (length (filter (\<lambda>x. x)
                                              (map_indexed (\<lambda>f a. f < MAX_ASFR \<and> a \<ge> 12 \<and> a < 55)
                                                 (cappedSchedule peak spreadVal second tfr)))))
                                     MAX_ASFR
                            else f)
                     (cappedSchedule peak spreadVal second tfr)
              else cappedSchedule peak spreadVal second tfr
            else cappedSchedule peak spreadVal second tfr),
         biologicallyCapped =
           Some (reduce_sum (cappedSchedule peak spreadVal second tfr) < tfr * 0.99),
         effectiveTFR =
           Some (reduce_sum
             (if reduce_sum (cappedSchedule peak spreadVal second tfr) < tfr * 0.99
              then
                if length (filter (\<lambda>x. x)
                     (map_indexed (\<lambda>f a. f < MAX_ASFR \<and> a \<ge> 12 \<and> a < 55)
                        (cappedSchedule peak spreadVal second tfr))) > 0
                then map_indexed
                       (\<lambda>f a. if map_indexed (\<lambda>f a. f < MAX_ASFR \<and> a \<ge> 12 \<and> a < 55)
                                    (cappedSchedule peak spreadVal second tfr) ! a
                              then min (f + (tfr - reduce_sum (cappedSchedule peak spreadVal second tfr))
                                            / real (length (filter (\<lambda>x. x)
                                                (map_indexed (\<lambda>f a. f < MAX_ASFR \<and> a \<ge> 12 \<and> a < 55)
                                                   (cappedSchedule peak spreadVal second tfr)))))
                                       MAX_ASFR
                              else f)
                       (cappedSchedule peak spreadVal second tfr)
                else cappedSchedule peak spreadVal second tfr
              else cappedSchedule peak spreadVal second tfr))\<rparr>)"
  unfolding getFertilitySchedule_def cappedSchedule_def normalizedSchedule_def Let_def
  by (rule refl)

lemma getFertilitySchedule_guarded:
  "reduce_sum (rawSchedule peak spreadVal second) < 1 / 10 ^ 10 \<Longrightarrow>
   getFertilitySchedule peak spreadVal second tfr
   = \<lparr>schedule = rawSchedule peak spreadVal second,
      biologicallyCapped = None, effectiveTFR = None\<rparr>"
  by (simp only: getFertilitySchedule_unfold if_True)

lemma getFertilitySchedule_flags:
  assumes "\<not> reduce_sum (rawSchedule peak spreadVal second) < 1 / 10 ^ 10"
  shows "biologicallyCapped (getFertilitySchedule peak spreadVal second tfr)
         = Some (reduce_sum (cappedSchedule peak spreadVal second tfr) < tfr * 0.99)"
    and "effectiveTFR (getFertilitySchedule peak spreadVal second tfr)
         = Some (reduce_sum (schedule (getFertilitySchedule peak spreadVal second tfr)))"
  using assms
  by (simp_all only: getFertilitySchedule_unfold if_False fertility_schedule.simps)

lemma getFertilitySchedule_not_capped:
  assumes "\<not> reduce_sum (rawSchedule peak spreadVal second) < 1 / 10 ^ 10"
    and "\<not> reduce_sum (cappedSchedule peak spreadVal second tfr) < tfr * 0.99"
  shows "schedule (getFertilitySchedule peak spreadVal second tfr)
         = cappedSchedule peak spreadVal second tfr"
  using assms
  by (simp only: getFertilitySchedule_unfold if_False fertility_schedule.simps)

lemma map_indexed_nth: "a < length xs \<Longrightarrow> map_indexed g xs ! a = g (xs ! a) a"
  by (simp add: map_indexed_def)

lemma length_map_indexed: "length (map_indexed g xs) = length xs"
  by (simp add: map_indexed_def)

text \<open>
  The redistribution pass, entry by entry. When no age can receive, the pass is
  skipped, and no entry meets the condition.
\<close>

lemma getFertilitySchedule_capped_nth:
  assumes guard: "\<not> reduce_sum (rawSchedule peak spreadVal second) < 1 / 10 ^ 10"
    and capped: "reduce_sum (cappedSchedule peak spreadVal second tfr) < tfr * 0.99"
    and a: "a < numAges"
  shows "schedule (getFertilitySchedule peak spreadVal second tfr) ! a
         = (if cappedSchedule peak spreadVal second tfr ! a < MAX_ASFR \<and> 12 \<le> a \<and> a < 55
            then min (cappedSchedule peak spreadVal second tfr ! a
                      + (tfr - reduce_sum (cappedSchedule peak spreadVal second tfr))
                        / real (length (filter (\<lambda>x. x)
                            (map_indexed (\<lambda>f a. f < MAX_ASFR \<and> a \<ge> 12 \<and> a < 55)
                               (cappedSchedule peak spreadVal second tfr)))))
                     MAX_ASFR
            else cappedSchedule peak spreadVal second tfr ! a)"
proof -
  let ?c = "cappedSchedule peak spreadVal second tfr"
  let ?cr = "map_indexed (\<lambda>f a. f < MAX_ASFR \<and> a \<ge> 12 \<and> a < 55) ?c"
  have cr: "?cr ! a = (?c ! a < MAX_ASFR \<and> 12 \<le> a \<and> a < 55)"
    using a by (simp add: map_indexed_nth length_cappedSchedule)
  show ?thesis
  proof (cases "length (filter (\<lambda>x. x) ?cr) > 0")
    case True
    have "schedule (getFertilitySchedule peak spreadVal second tfr)
        = map_indexed (\<lambda>f a. if ?cr ! a
             then min (f + (tfr - reduce_sum ?c) / real (length (filter (\<lambda>x. x) ?cr))) MAX_ASFR
             else f) ?c"
      using guard capped True
      by (simp only: getFertilitySchedule_unfold if_False if_True fertility_schedule.simps)
    then show ?thesis
      using a by (simp only: map_indexed_nth length_cappedSchedule cr)
  next
    case False
    then have none: "filter (\<lambda>x. x) ?cr = []"
      by simp
    have "a < length ?cr"
      using a by (simp add: length_map_indexed length_cappedSchedule)
    then have "?cr ! a \<in> set ?cr"
      by (rule nth_mem)
    with none have "\<not> ?cr ! a"
      by (auto simp: filter_empty_conv)
    then have no: "\<not> (?c ! a < MAX_ASFR \<and> 12 \<le> a \<and> a < 55)"
      unfolding cr .
    have "schedule (getFertilitySchedule peak spreadVal second tfr) = ?c"
      using guard capped False
      by (simp only: getFertilitySchedule_unfold if_False if_True fertility_schedule.simps)
    then show ?thesis
      using no by auto
  qed
qed

lemma length_getFertilitySchedule:
  "length (schedule (getFertilitySchedule peak spreadVal second tfr)) = numAges"
  by (simp add: getFertilitySchedule_def Let_def length_rawSchedule length_map_indexed)

subsection \<open>The achieved total fertility\<close>

lemma sum_list_count_true:
  "sum_list (map (\<lambda>b. if b then q else 0) bs) = q * real (length (filter (\<lambda>x. x) bs))"
  by (induction bs) (simp_all add: algebra_simps)

lemma sum_nth_count_true:
  "(\<Sum>a<length bs. if bs ! a then q else 0) = (q :: real) * real (length (filter (\<lambda>x. x) bs))"
proof -
  have "(\<Sum>a<length bs. if bs ! a then q else 0)
        = (\<Sum>a<length (map (\<lambda>b. if b then q else 0) bs). map (\<lambda>b. if b then q else 0) bs ! a)"
    by (intro sum.cong) simp_all
  also have "\<dots> = sum_list (map (\<lambda>b. if b then q else 0) bs)"
    by (simp only: sum_list_sum_nth atLeast0LessThan)
  finally show ?thesis
    by (simp only: sum_list_count_true)
qed

text \<open>
  The entries of the redistributed array add up to the capped sum plus what each
  receiving age got; the receiving ages are those counted by \<^verbatim>\<open>numCanReceive\<close>.
\<close>

lemma canReceive_nth:
  "a < numAges \<Longrightarrow>
   map_indexed (\<lambda>f a. f < MAX_ASFR \<and> a \<ge> 12 \<and> a < 55)
     (cappedSchedule peak spreadVal second tfr) ! a
   = (cappedSchedule peak spreadVal second tfr ! a < MAX_ASFR \<and> 12 \<le> a \<and> a < 55)"
  by (simp add: map_indexed_nth length_cappedSchedule)

lemma getFertilitySchedule_capped_sum_le:
  assumes guard: "\<not> reduce_sum (rawSchedule peak spreadVal second) < 1 / 10 ^ 10"
    and capped: "reduce_sum (cappedSchedule peak spreadVal second tfr) < tfr * 0.99"
  shows "reduce_sum (schedule (getFertilitySchedule peak spreadVal second tfr)) \<le> tfr"
proof -
  let ?c = "cappedSchedule peak spreadVal second tfr"
  let ?cr = "map_indexed (\<lambda>f a. f < MAX_ASFR \<and> a \<ge> 12 \<and> a < 55) ?c"
  let ?k = "length (filter (\<lambda>x. x) ?cr)"
  let ?q = "(tfr - reduce_sum ?c) / real ?k"
  let ?s = "schedule (getFertilitySchedule peak spreadVal second tfr)"
  have len: "length ?cr = numAges"
    by (simp add: length_map_indexed length_cappedSchedule)
  have "?s ! a \<le> ?c ! a + (if ?cr ! a then ?q else 0)" if "a < numAges" for a
    unfolding getFertilitySchedule_capped_nth [OF guard capped that] canReceive_nth [OF that]
    by simp
  then have "(\<Sum>a<numAges. ?s ! a) \<le> (\<Sum>a<numAges. ?c ! a + (if ?cr ! a then ?q else 0))"
    by (intro sum_mono) simp
  also have "\<dots> = (\<Sum>a<numAges. ?c ! a) + (\<Sum>a<length ?cr. if ?cr ! a then ?q else 0)"
    by (simp only: sum.distrib len)
  also have "\<dots> = reduce_sum ?c + ?q * real ?k"
    by (simp only: sum_nth_count_true reduce_sum_nth length_cappedSchedule)
  also have "\<dots> \<le> tfr"
    using reduce_sum_cappedSchedule_le [of peak spreadVal second tfr]
    by (cases "?k = 0") simp_all
  finally show ?thesis
    by (simp add: reduce_sum_nth length_getFertilitySchedule)
qed

lemma getFertilitySchedule_sum_le:
  assumes guard: "\<not> reduce_sum (rawSchedule peak spreadVal second) < 1 / 10 ^ 10"
  shows "reduce_sum (schedule (getFertilitySchedule peak spreadVal second tfr)) \<le> tfr"
proof (cases "reduce_sum (cappedSchedule peak spreadVal second tfr) < tfr * 0.99")
  case True
  with guard show ?thesis
    by (rule getFertilitySchedule_capped_sum_le)
next
  case False
  with guard show ?thesis
    by (simp add: getFertilitySchedule_not_capped reduce_sum_cappedSchedule_le)
qed

text \<open>Every entry of the result stays between 0 and the cap, and is 0 off the window.\<close>

lemma getFertilitySchedule_entry:
  assumes tfr: "0 \<le> tfr" and a: "a < numAges"
  shows "0 \<le> schedule (getFertilitySchedule peak spreadVal second tfr) ! a"
    and "schedule (getFertilitySchedule peak spreadVal second tfr) ! a \<le> MAX_ASFR"
    and "\<not> (12 \<le> a \<and> a < 55) \<Longrightarrow>
         schedule (getFertilitySchedule peak spreadVal second tfr) ! a = 0"
proof -
  let ?raw = "rawSchedule peak spreadVal second"
  let ?c = "cappedSchedule peak spreadVal second tfr"
  let ?s = "schedule (getFertilitySchedule peak spreadVal second tfr)"
  have "0 \<le> ?s ! a \<and> ?s ! a \<le> MAX_ASFR \<and> (\<not> (12 \<le> a \<and> a < 55) \<longrightarrow> ?s ! a = 0)"
  proof (cases "reduce_sum ?raw < 1 / 10 ^ 10")
    case True
    have "?raw ! a \<le> (\<Sum>a<numAges. ?raw ! a)"
      using a by (intro member_le_sum) (simp_all add: rawSchedule_nonneg)
    then have "?raw ! a < 1 / 10 ^ 10"
      using True by (simp add: reduce_sum_nth length_rawSchedule)
    then have "?raw ! a \<le> MAX_ASFR"
      by (simp add: MAX_ASFR_def)
    then show ?thesis
      using a by (simp add: getFertilitySchedule_guarded [OF True] rawSchedule_nonneg
          rawSchedule_outside)
  next
    case guard: False
    note b = cappedSchedule_bounds [OF tfr a, of peak spreadVal second]
    show ?thesis
    proof (cases "reduce_sum ?c < tfr * 0.99")
      case False
      with guard b a show ?thesis
        by (simp add: getFertilitySchedule_not_capped cappedSchedule_outside)
    next
      case True
      let ?k = "length (filter (\<lambda>x. x)
                  (map_indexed (\<lambda>f a. f < MAX_ASFR \<and> a \<ge> 12 \<and> a < 55) ?c))"
      have "0 \<le> tfr - reduce_sum ?c"
        using True tfr by simp
      then have "0 \<le> (tfr - reduce_sum ?c) / real ?k"
        by simp
      then have "0 \<le> min (?c ! a + (tfr - reduce_sum ?c) / real ?k) MAX_ASFR"
        using b by (simp add: MAX_ASFR_def)
      then show ?thesis
        unfolding getFertilitySchedule_capped_nth [OF guard True a]
        using b a by (auto simp: cappedSchedule_outside)
    qed
  qed
  then show "0 \<le> ?s ! a" "?s ! a \<le> MAX_ASFR" "\<not> (12 \<le> a \<and> a < 55) \<Longrightarrow> ?s ! a = 0"
    by simp_all
qed

subsection \<open>Claims on the fertility schedule\<close>

text \<open>
  Claim C10. For every input with a target total fertility of at least 0, the returned
  schedule has \<open>numAges\<close> entries, each between 0 and \<open>MAX_ASFR = 1.1\<close>; the entries
  outside the fertile window of the ages 12 to 54 are exactly 0; and the achieved
  \<open>effectiveTFR\<close>, whenever the function sets it, does not exceed the target. On the
  early return, which leaves \<open>effectiveTFR\<close> unset, the schedule sums to less than
  \<open>1e-10\<close>.
\<close>

theorem C10_schedule_bounds:
  assumes "0 \<le> tfr"
  shows "length (schedule (getFertilitySchedule peak spreadVal second tfr)) = numAges
       \<and> (\<forall>a. a < numAges \<longrightarrow>
            0 \<le> schedule (getFertilitySchedule peak spreadVal second tfr) ! a
            \<and> schedule (getFertilitySchedule peak spreadVal second tfr) ! a \<le> MAX_ASFR)
       \<and> (\<forall>a. a < numAges \<and> \<not> (12 \<le> a \<and> a < 55) \<longrightarrow>
            schedule (getFertilitySchedule peak spreadVal second tfr) ! a = 0)
       \<and> (\<forall>e. effectiveTFR (getFertilitySchedule peak spreadVal second tfr) = Some e
            \<longrightarrow> e \<le> tfr)
       \<and> (effectiveTFR (getFertilitySchedule peak spreadVal second tfr) = None
            \<longrightarrow> reduce_sum (schedule (getFertilitySchedule peak spreadVal second tfr))
                < 1 / 10 ^ 10)"
proof (intro conjI allI impI)
  show "length (schedule (getFertilitySchedule peak spreadVal second tfr)) = numAges"
    by (rule length_getFertilitySchedule)
  show "0 \<le> schedule (getFertilitySchedule peak spreadVal second tfr) ! a"
    if "a < numAges" for a
    using assms that by (rule getFertilitySchedule_entry)
  show "schedule (getFertilitySchedule peak spreadVal second tfr) ! a \<le> MAX_ASFR"
    if "a < numAges" for a
    using assms that by (rule getFertilitySchedule_entry)
  show "schedule (getFertilitySchedule peak spreadVal second tfr) ! a = 0"
    if "a < numAges \<and> \<not> (12 \<le> a \<and> a < 55)" for a
    using getFertilitySchedule_entry(3) [OF assms, of a peak spreadVal second] that by blast
  show "e \<le> tfr"
    if e: "effectiveTFR (getFertilitySchedule peak spreadVal second tfr) = Some e" for e
  proof (cases "reduce_sum (rawSchedule peak spreadVal second) < 1 / 10 ^ 10")
    case True
    with e show ?thesis
      by (simp add: getFertilitySchedule_guarded)
  next
    case False
    from getFertilitySchedule_flags(2) [OF False, of tfr] e
    have "e = reduce_sum (schedule (getFertilitySchedule peak spreadVal second tfr))"
      by simp
    with getFertilitySchedule_sum_le [OF False, of tfr] show ?thesis
      by simp
  qed
  show "reduce_sum (schedule (getFertilitySchedule peak spreadVal second tfr)) < 1 / 10 ^ 10"
    if e: "effectiveTFR (getFertilitySchedule peak spreadVal second tfr) = None"
  proof (cases "reduce_sum (rawSchedule peak spreadVal second) < 1 / 10 ^ 10")
    case True
    then show ?thesis
      by (simp add: getFertilitySchedule_guarded)
  next
    case False
    from getFertilitySchedule_flags(2) [OF False, of tfr] e show ?thesis
      by simp
  qed
qed

subsection \<open>A single Gaussian peak\<close>

lemma rawValue_single:
  "rawValue peak sigma None a
   = exp (- ((real a - peak) ^ 2) / (2 * sigma ^ 2))
     * (if a > 40 then exp (- 0.1 * (real a - 40)) else 1)"
  by (simp add: rawValue_def Let_def)



lemma rawSchedule_at_peak_27: "rawSchedule 27 spreadVal None ! 27 = 1"
  by (simp add: rawSchedule_inside rawValue_single)

lemma rawSchedule_nth_le_sum:
  "a < numAges \<Longrightarrow> rawSchedule peak spreadVal second ! a
     \<le> reduce_sum (rawSchedule peak spreadVal second)"
  unfolding reduce_sum_nth length_rawSchedule
  by (rule member_le_sum) (simp_all add: rawSchedule_nonneg)

lemma raw_sum_peak_27_ge_1: "1 \<le> reduce_sum (rawSchedule 27 spreadVal None)"
  using rawSchedule_nth_le_sum [of 27 27 spreadVal None]
  by (simp add: rawSchedule_at_peak_27 numAges_def)

text \<open>When no receiving age is clamped again, the redistribution restores the target.\<close>

lemma getFertilitySchedule_capped_sum_eq:
  assumes guard: "\<not> reduce_sum (rawSchedule peak spreadVal second) < 1 / 10 ^ 10"
    and capped: "reduce_sum (cappedSchedule peak spreadVal second tfr) < tfr * 0.99"
    and some: "0 < length (filter (\<lambda>x. x)
                 (map_indexed (\<lambda>f a. f < MAX_ASFR \<and> a \<ge> 12 \<and> a < 55)
                    (cappedSchedule peak spreadVal second tfr)))"
    and room: "\<And>a. a < numAges \<Longrightarrow>
                 cappedSchedule peak spreadVal second tfr ! a < MAX_ASFR \<Longrightarrow>
                 cappedSchedule peak spreadVal second tfr ! a
                 + (tfr - reduce_sum (cappedSchedule peak spreadVal second tfr))
                   / real (length (filter (\<lambda>x. x)
                       (map_indexed (\<lambda>f a. f < MAX_ASFR \<and> a \<ge> 12 \<and> a < 55)
                          (cappedSchedule peak spreadVal second tfr))))
                 \<le> MAX_ASFR"
  shows "reduce_sum (schedule (getFertilitySchedule peak spreadVal second tfr)) = tfr"
proof -
  let ?c = "cappedSchedule peak spreadVal second tfr"
  let ?cr = "map_indexed (\<lambda>f a. f < MAX_ASFR \<and> a \<ge> 12 \<and> a < 55) ?c"
  let ?k = "length (filter (\<lambda>x. x) ?cr)"
  let ?q = "(tfr - reduce_sum ?c) / real ?k"
  let ?s = "schedule (getFertilitySchedule peak spreadVal second tfr)"
  have len: "length ?cr = numAges"
    by (simp add: length_map_indexed length_cappedSchedule)
  have "?s ! a = ?c ! a + (if ?cr ! a then ?q else 0)" if "a < numAges" for a
    unfolding getFertilitySchedule_capped_nth [OF guard capped that] canReceive_nth [OF that]
    using room [OF that] by simp
  then have "(\<Sum>a<numAges. ?s ! a) = (\<Sum>a<numAges. ?c ! a + (if ?cr ! a then ?q else 0))"
    by (intro sum.cong) simp_all
  also have "\<dots> = (\<Sum>a<numAges. ?c ! a) + (\<Sum>a<length ?cr. if ?cr ! a then ?q else 0)"
    by (simp only: sum.distrib len)
  also have "\<dots> = reduce_sum ?c + ?q * real ?k"
    by (simp only: sum_nth_count_true reduce_sum_nth length_cappedSchedule)
  also have "\<dots> = tfr"
    using some by simp
  finally show ?thesis
    by (simp add: reduce_sum_nth length_getFertilitySchedule)
qed







subsection \<open>The share of one age in the raw sum\<close>



































subsection \<open>The calls of the component\<close>








theorem C10_schedule_bounds_witness:
  "(0::real) \<le> 2.1
   \<and> length (schedule (getFertilitySchedule 27 7 None 2.1)) = 100
   \<and> 0 \<le> schedule (getFertilitySchedule 27 7 None 2.1) ! 27
   \<and> schedule (getFertilitySchedule 27 7 None 2.1) ! 27 \<le> MAX_ASFR
   \<and> schedule (getFertilitySchedule 27 7 None 2.1) ! 5 = 0
   \<and> reduce_sum (schedule (getFertilitySchedule 27 7 None 2.1)) \<le> 2.1"
proof -
  have nonneg: "(0::real) \<le> 2.1"
    by simp
  note c = C10_schedule_bounds [OF nonneg, of 27 7 None]
  have guard: "\<not> reduce_sum (rawSchedule 27 7 None) < 1 / 10 ^ 10"
    using raw_sum_peak_27_ge_1 [of 7] by simp
  from c have len: "length (schedule (getFertilitySchedule 27 7 None 2.1)) = 100"
    by (simp add: numAges_def)
  from c have "27 < numAges \<longrightarrow>
      0 \<le> schedule (getFertilitySchedule 27 7 None 2.1) ! 27
      \<and> schedule (getFertilitySchedule 27 7 None 2.1) ! 27 \<le> MAX_ASFR"
    by blast
  then have rng: "0 \<le> schedule (getFertilitySchedule 27 7 None 2.1) ! 27"
    "schedule (getFertilitySchedule 27 7 None 2.1) ! 27 \<le> MAX_ASFR"
    by (simp_all add: numAges_def)
  from c have "5 < numAges \<and> \<not> (12 \<le> (5::nat) \<and> (5::nat) < 55) \<longrightarrow>
      schedule (getFertilitySchedule 27 7 None 2.1) ! 5 = 0"
    by blast
  then have off: "schedule (getFertilitySchedule 27 7 None 2.1) ! 5 = 0"
    by (simp add: numAges_def)
  from c have "effectiveTFR (getFertilitySchedule 27 7 None 2.1)
          = Some (reduce_sum (schedule (getFertilitySchedule 27 7 None 2.1)))
      \<longrightarrow> reduce_sum (schedule (getFertilitySchedule 27 7 None 2.1)) \<le> 2.1"
    by blast
  with getFertilitySchedule_flags(2) [OF guard, of "2.1"]
  have eff: "reduce_sum (schedule (getFertilitySchedule 27 7 None 2.1)) \<le> 2.1"
    by blast
  show ?thesis
    by (intro conjI nonneg len rng off eff)
qed

subsection \<open>The guarded divisions\<close>

















subsection \<open>Claim on the initialisation\<close>

text \<open>
  Claim C8. The initialisation is a function of the configuration alone: two states
  that agree on the scenario, the total fertility, the life expectancy, the peak
  fertility age, the fertility spread, the sex ratio at birth and the initial
  population, whatever else they hold, are initialised to the same total, male and
  female distributions, the same time and the same history, whose single entry
  carries the population, births, deaths, mean parent age and dependency ratio.
\<close>

theorem C8_initialize_deterministic:
  assumes "scenario s1 = scenario s2"
    and "totalFertility s1 = totalFertility s2"
    and "lifeExpectancy s1 = lifeExpectancy s2"
    and "peakFertilityAge s1 = peakFertilityAge s2"
    and "fertilitySpread s1 = fertilitySpread s2"
    and "sexRatioBirth s1 = sexRatioBirth s2"
    and "initialPopulation s1 = initialPopulation s2"
  shows "ageDistribution (initialize s1) = ageDistribution (initialize s2)
       \<and> maleDistribution (initialize s1) = maleDistribution (initialize s2)
       \<and> femaleDistribution (initialize s1) = femaleDistribution (initialize s2)
       \<and> time (initialize s1) = time (initialize s2)
       \<and> history (initialize s1) = history (initialize s2)
       \<and> length (history (initialize s1)) = 1"
proof -
  have p: "getEffectiveParams s1 = getEffectiveParams s2"
    using assms by (simp add: getEffectiveParams_def)
  have a: "ageDistribution (initialize s1) = ageDistribution (initialize s2)"
    unfolding initialize_def Let_def split_beta p assms by (simp del: upt_rec_numeral)
  have m: "maleDistribution (initialize s1) = maleDistribution (initialize s2)"
    unfolding initialize_def Let_def split_beta p assms by (simp del: upt_rec_numeral)
  have f: "femaleDistribution (initialize s1) = femaleDistribution (initialize s2)"
    unfolding initialize_def Let_def split_beta p assms by (simp del: upt_rec_numeral)
  have t: "time (initialize s1) = time (initialize s2)"
    unfolding initialize_def Let_def split_beta p assms by (simp del: upt_rec_numeral)
  have h: "history (initialize s1) = history (initialize s2)"
    unfolding initialize_def Let_def split_beta p assms by (simp del: upt_rec_numeral)
  have l: "length (history (initialize s1)) = 1"
    unfolding initialize_def Let_def split_beta by (simp del: upt_rec_numeral)
  show ?thesis
    by (intro conjI a m f t h l)
qed

theorem C8_initialize_deterministic_witness:
  "initialState\<lparr>isPlaying := True, time := 7, scrubIndex := Some 3,
                ageDistribution := [1, 2], simulationSpeed := 50\<rparr> \<noteq> initialState
   \<and> ageDistribution (initialize (initialState\<lparr>isPlaying := True, time := 7,
          scrubIndex := Some 3, ageDistribution := [1, 2], simulationSpeed := 50\<rparr>))
     = ageDistribution (initialize initialState)
   \<and> maleDistribution (initialize (initialState\<lparr>isPlaying := True, time := 7,
          scrubIndex := Some 3, ageDistribution := [1, 2], simulationSpeed := 50\<rparr>))
     = maleDistribution (initialize initialState)
   \<and> femaleDistribution (initialize (initialState\<lparr>isPlaying := True, time := 7,
          scrubIndex := Some 3, ageDistribution := [1, 2], simulationSpeed := 50\<rparr>))
     = femaleDistribution (initialize initialState)
   \<and> history (initialize (initialState\<lparr>isPlaying := True, time := 7,
          scrubIndex := Some 3, ageDistribution := [1, 2], simulationSpeed := 50\<rparr>))
     = history (initialize initialState)"
proof -
  let ?s = "initialState\<lparr>isPlaying := True, time := 7, scrubIndex := Some 3,
                ageDistribution := [1, 2], simulationSpeed := 50\<rparr>"
  have "time ?s \<noteq> time initialState"
    by (simp add: initialState_def)
  then have ne: "?s \<noteq> initialState"
    by metis
  have "ageDistribution (initialize ?s) = ageDistribution (initialize initialState)
       \<and> maleDistribution (initialize ?s) = maleDistribution (initialize initialState)
       \<and> femaleDistribution (initialize ?s) = femaleDistribution (initialize initialState)
       \<and> time (initialize ?s) = time (initialize initialState)
       \<and> history (initialize ?s) = history (initialize initialState)
       \<and> length (history (initialize ?s)) = 1"
    by (rule C8_initialize_deterministic) simp_all
  with ne show ?thesis
    by blast
qed

subsection \<open>Claim on the realized growth rate\<close>

lemma growthRate_short: "length h \<le> 10 \<Longrightarrow> growthRate h = 0"
  by (simp add: growthRate_def)

lemma growthRate_long:
  "10 < length h \<Longrightarrow>
   growthRate h
   = (population (h ! (length h - 1)) / population (h ! (length h - 10)) - 1) * 100 / 10"
  by (simp add: growthRate_def)

text \<open>
  The base of the ratio is the entry at \<open>length h - 10\<close>, nine steps before the latest
  one at \<open>length h - 1\<close>: whenever the populations ten and nine steps back differ, the
  result is not the ten-step ratio.
\<close>

lemma growthRate_not_ten_steps:
  assumes "10 < length h"
    and "population (h ! (length h - 1)) \<noteq> 0"
    and "population (h ! (length h - 10)) \<noteq> 0"
    and "population (h ! (length h - 11)) \<noteq> 0"
    and "population (h ! (length h - 10)) \<noteq> population (h ! (length h - 11))"
  shows "growthRate h
         \<noteq> (population (h ! (length h - 1)) / population (h ! (length h - 11)) - 1) * 100 / 10"
  using assms by (simp add: growthRate_long field_simps)

lemma sampleHistory_nth: "i < n \<Longrightarrow> population (sampleHistory n ! i) = 1000 + 100 * real i"
  by (simp add: sampleHistory_def sampleEntry_def)

text \<open>
  Claim C6 asks for the ratio of the latest population to the population 10 steps
  earlier, annualized over the 10 steps. On a history of 11 entries (10 steps) with
  the populations 1000, 1100, ..., 2000 that is \<open>(2000 / 1000 - 1) * 100 / 10 = 10\<close>;
  \<open>growthRate\<close> divides by the population of year 1 instead and yields \<open>90 / 11\<close>. With
  10 entries it yields 0.
\<close>

theorem C6_growthRate_nine_step_base:
  "length (sampleHistory 11) = 11
   \<and> growthRate (sampleHistory 11)
     = (population (sampleHistory 11 ! 10) / population (sampleHistory 11 ! 1) - 1) * 100 / 10
   \<and> growthRate (sampleHistory 11) = 90 / 11
   \<and> (population (sampleHistory 11 ! 10) / population (sampleHistory 11 ! 0) - 1) * 100 / 10
     = 10
   \<and> growthRate (sampleHistory 10) = 0"
proof -
  have len: "length (sampleHistory 11) = 11" "length (sampleHistory 10) = 10"
    by (simp_all add: sampleHistory_def)
  have g: "growthRate (sampleHistory 11)
     = (population (sampleHistory 11 ! 10) / population (sampleHistory 11 ! 1) - 1) * 100 / 10"
    using growthRate_long [of "sampleHistory 11"] by (simp add: len)
  have v: "growthRate (sampleHistory 11) = 90 / 11"
    unfolding g by (simp add: sampleHistory_nth)
  have c: "(population (sampleHistory 11 ! 10) / population (sampleHistory 11 ! 0) - 1) * 100 / 10
     = 10"
    by (simp add: sampleHistory_nth)
  have z: "growthRate (sampleHistory 10) = 0"
    by (rule growthRate_short) (simp add: len)
  show ?thesis
    by (intro conjI len(1) g v c z)
qed

end
